theory Spec2Isabelle
  imports Complex_Main
begin

section \<open>Data model\<close>

text \<open>
  The library's transaction lifecycle: the Mongoose models \<^verbatim>\<open>Transaction\<close> and
  \<^verbatim>\<open>Book\<close>, the route handlers \<^verbatim>\<open>POST /issue\<close>, \<^verbatim>\<open>POST /return\<close>,
  \<^verbatim>\<open>POST /renew\<close> and the scheduled job \<^verbatim>\<open>AutomationService.checkOverdueBooks\<close>.

  Conventions of the embedding.
  \<^item> A \<^verbatim>\<open>Date\<close> is its number of milliseconds since the epoch, an \<open>int\<close>; every
    \<^verbatim>\<open>new Date()\<close> and \<^verbatim>\<open>Date.now()\<close> of one operation reads the argument \<open>now\<close>.
  \<^item> A collection is the list of its documents and an \<^verbatim>\<open>_id\<close> is the position of the
    document in that list; documents are never physically deleted by these operations.
  \<^item> The numeric fields of a transaction are written by the code only (0, \<open>+ 1\<close>, a
    ceiling) and are modelled by \<open>int\<close>. The numeric fields of a book can be set to any
    number by \<^verbatim>\<open>PUT /books/:id\<close>, fractions included, and are modelled by \<open>rat\<close>;
    \<^verbatim>\<open>undefined\<close> (a field that a projection did not load) is \<open>None\<close>.
  \<^item> A \<^verbatim>\<open>Date\<close> built from a request string may be an Invalid Date (\<open>jsdate\<close>);
    a stored date never is.
  \<^item> The one division, \<^verbatim>\<open>Math.ceil((now - dueDate) / day)\<close>, is the exact ceiling of
    the quotient (\<open>ceil_div_ceiling\<close> below); the double-precision quotient has the same
    ceiling for all differences below \<open>2^53\<close> milliseconds.
  \<^item> A thrown \<^verbatim>\<open>Error\<close> and a rejected \<^verbatim>\<open>save()\<close> are the \<open>Inl\<close> side of a sum.
  \<^item> Fields that none of the modelled operations reads (title, author, ISBN, notes, the
    \<^verbatim>\<open>createdAt\<close>/\<^verbatim>\<open>updatedAt\<close> timestamps, ...) are left out, and so are their
    validators: the operations never change these fields.
\<close>

datatype error =
    ValidationError string  \<comment> \<open>a schema validator rejected the document on save\<close>
  | CastError string        \<comment> \<open>a value could not be cast to the type of its field\<close>
  | Error string            \<comment> \<open>\<^verbatim>\<open>throw new Error(msg)\<close>\<close>

datatype txtype = borrow | return | renewal

datatype txstatus = active | returned | overdue | renewed

record transaction =
  user :: nat
  book :: nat
  txtype :: txtype
  borrowDate :: int
  dueDate :: int
  returnDate :: "int option"
  status :: txstatus
  fineAmount :: int
  renewalCount :: int
  processedBy :: nat

record bookdoc =
  totalCopies :: "rat option"
  availableCopies :: "rat option"
  isActive :: bool
  lastBorrowed :: "int option"
  borrowCount :: rat

text \<open>\<^verbatim>\<open>new Date(string)\<close>: a point in time, or an Invalid Date.\<close>

datatype jsdate = Date int | InvalidDate

definition day_ms :: int where
  "day_ms = 1000 * 60 * 60 * 24"

definition fourteen_days :: int where
  "fourteen_days = 14 * 24 * 60 * 60 * 1000"

text \<open>\<^verbatim>\<open>Math.ceil(a / b)\<close> for a positive divisor, on integers.\<close>

definition ceil_div :: "int \<Rightarrow> int \<Rightarrow> int" where
  "ceil_div a b = - ((- a) div b)"

text \<open>JavaScript's relational operators on numbers that may be \<^verbatim>\<open>undefined\<close>:
  a comparison with \<^verbatim>\<open>undefined\<close> is \<^verbatim>\<open>false\<close>.\<close>

definition js_lt :: "rat option \<Rightarrow> rat option \<Rightarrow> bool" where
  "js_lt a b = (case (a, b) of (Some x, Some y) \<Rightarrow> x < y | _ \<Rightarrow> False)"

definition js_gt :: "rat option \<Rightarrow> rat option \<Rightarrow> bool" where
  "js_gt a b = js_lt b a"

section \<open>The Transaction model\<close>

text \<open>Schema validators of \<^verbatim>\<open>Transaction\<close>: \<^verbatim>\<open>fineAmount\<close> has \<^verbatim>\<open>min: 0\<close>,
  \<^verbatim>\<open>renewalCount\<close> has \<^verbatim>\<open>max: 3\<close>. The enum and required checks hold by typing.\<close>

definition validate_tx :: "transaction \<Rightarrow> error option" where
  "validate_tx t =
     (if fineAmount t < 0 then Some (ValidationError ''Fine amount cannot be negative'')
      else if renewalCount t > 3 then Some (ValidationError ''Maximum 3 renewals allowed'')
      else None)"

text \<open>First pre-save hook: a new borrow gets its due date from its borrow date.\<close>

definition preSaveDueDate :: "bool \<Rightarrow> transaction \<Rightarrow> transaction" where
  "preSaveDueDate isNew t =
     (if isNew \<and> txtype t = borrow
      then t\<lparr>dueDate := borrowDate t + fourteen_days\<rparr>
      else t)"

text \<open>Second pre-save hook: a late active transaction without return date becomes overdue.\<close>

definition preSaveOverdue :: "int \<Rightarrow> transaction \<Rightarrow> transaction" where
  "preSaveOverdue now t =
     (if status t = active \<and> dueDate t < now \<and> returnDate t = None
      then t\<lparr>status := overdue\<rparr>
      else t)"

text \<open>\<^verbatim>\<open>doc.save()\<close>: validation, then the two hooks in the order of their registration.\<close>

definition save_tx :: "bool \<Rightarrow> int \<Rightarrow> transaction \<Rightarrow> error + transaction" where
  "save_tx isNew now t =
     (case validate_tx t of
        Some e \<Rightarrow> Inl e
      | None \<Rightarrow> Inr (preSaveOverdue now (preSaveDueDate isNew t)))"

definition calculateFine :: "int \<Rightarrow> transaction \<Rightarrow> transaction" where
  "calculateFine now t =
     (if status t = overdue
      then (let daysOverdue = ceil_div (now - dueDate t) day_ms;
                finePerDay = 1
            in t\<lparr>fineAmount := daysOverdue * finePerDay\<rparr>)
      else t)"

definition renewBook :: "int \<Rightarrow> transaction \<Rightarrow> error + transaction" where
  "renewBook now t =
     (if renewalCount t \<ge> 3 then Inl (Error ''Maximum renewals reached'')
      else if status t \<noteq> active then Inl (Error ''Only active transactions can be renewed'')
      else save_tx False now
             (t\<lparr>renewalCount := renewalCount t + 1,
                dueDate := dueDate t + fourteen_days,
                status := renewed\<rparr>))"

definition returnBook :: "int \<Rightarrow> transaction \<Rightarrow> error + transaction" where
  "returnBook now t =
     (if status t = returned then Inl (Error ''Book already returned'')
      else save_tx False now
             (calculateFine now (t\<lparr>returnDate := Some now, status := returned\<rparr>)))"

section \<open>The Book model\<close>

text \<open>Schema validators of \<^verbatim>\<open>Book\<close> on the two counters: both are required,
  \<^verbatim>\<open>totalCopies\<close> lies in 1..1000 and \<^verbatim>\<open>availableCopies\<close> has \<^verbatim>\<open>min: 0\<close>.\<close>

definition validate_book :: "bookdoc \<Rightarrow> error option" where
  "validate_book b =
     (case totalCopies b of
        None \<Rightarrow> Some (ValidationError ''Total copies is required'')
      | Some t \<Rightarrow>
          if t < 1 then Some (ValidationError ''Must have at least 1 copy'')
          else if t > 1000 then Some (ValidationError ''Cannot have more than 1000 copies'')
          else (case availableCopies b of
                  None \<Rightarrow> Some (ValidationError ''Available copies is required'')
                | Some a \<Rightarrow>
                    if a < 0 then Some (ValidationError ''Available copies cannot be negative'')
                    else None))"

text \<open>Pre-save hook: available copies never exceed total copies.\<close>

definition preSaveCap :: "bookdoc \<Rightarrow> bookdoc" where
  "preSaveCap b =
     (if js_gt (availableCopies b) (totalCopies b)
      then b\<lparr>availableCopies := totalCopies b\<rparr>
      else b)"

definition save_book :: "bookdoc \<Rightarrow> error + bookdoc" where
  "save_book b =
     (case validate_book b of
        Some e \<Rightarrow> Inl e
      | None \<Rightarrow> Inr (preSaveCap b))"

definition canBorrow :: "bookdoc \<Rightarrow> bool" where
  "canBorrow b = (isActive b \<and> js_gt (availableCopies b) (Some 0))"

definition borrowBook :: "int \<Rightarrow> bookdoc \<Rightarrow> error + bookdoc" where
  "borrowBook now b =
     (if canBorrow b
      then save_book
             (b\<lparr>availableCopies := map_option (\<lambda>a. a - 1) (availableCopies b),
                borrowCount := borrowCount b + 1,
                lastBorrowed := Some now\<rparr>)
      else Inl (Error ''Book cannot be borrowed''))"

definition book_returnBook :: "bookdoc \<Rightarrow> error + bookdoc" where
  "book_returnBook b =
     (if js_lt (availableCopies b) (totalCopies b)
      then save_book (b\<lparr>availableCopies := map_option (\<lambda>a. a + 1) (availableCopies b)\<rparr>)
      else Inl (Error ''All copies are already available''))"

section \<open>The store and the route handlers\<close>

datatype role = admin | member

text \<open>A user document. The \<^verbatim>\<open>User\<close> model itself is not part of the sources; the routes
  read and write the two fields below (\<^verbatim>\<open>req.user.role\<close>, \<^verbatim>\<open>user.isActive = false\<close>).\<close>

record userdoc =
  userRole :: role
  userIsActive :: bool

text \<open>The authenticated caller \<^verbatim>\<open>req.user\<close>, as the middleware hands it to a handler.\<close>

record actor =
  actorId :: nat
  actorRole :: role

record db =
  books :: "bookdoc list"
  users :: "userdoc list"
  transactions :: "transaction list"

text \<open>An HTTP answer: status code, the \<^verbatim>\<open>message\<close> field and the transaction in \<^verbatim>\<open>data\<close>.\<close>

datatype response = Response (code: nat) (message: string) (payload: "transaction option")

definition findById :: "nat \<Rightarrow> 'a list \<Rightarrow> 'a option" where
  "findById i xs = (if i < length xs then Some (xs ! i) else None)"

text \<open>The document of \<^verbatim>\<open>new Transaction({user, book, type: 'borrow', dueDate, processedBy})\<close>
  with the schema defaults filled in, for a due date that is a point in time.\<close>

definition newTransaction :: "int \<Rightarrow> nat \<Rightarrow> nat \<Rightarrow> int \<Rightarrow> nat \<Rightarrow> transaction" where
  "newTransaction now userId bookId due staff =
     \<lparr>user = userId, book = bookId, txtype = borrow, borrowDate = now, dueDate = due,
      returnDate = None, status = active, fineAmount = 0, renewalCount = 0,
      processedBy = staff\<rparr>"

text \<open>\<^verbatim>\<open>new Transaction({...})\<close> casts the due date to the field's type. An Invalid Date
  fails the cast: the constructor does not throw, the document keeps the cast error and
  its \<^verbatim>\<open>save()\<close> is rejected by the validation that runs before the pre-save hooks.\<close>

definition constructTransaction ::
  "int \<Rightarrow> nat \<Rightarrow> nat \<Rightarrow> jsdate \<Rightarrow> nat \<Rightarrow> error + transaction" where
  "constructTransaction now userId bookId due staff =
     (case due of
        InvalidDate \<Rightarrow> Inl (CastError ''dueDate'')
      | Date d \<Rightarrow> Inr (newTransaction now userId bookId d staff))"

definition saveNew :: "int \<Rightarrow> error + transaction \<Rightarrow> error + transaction" where
  "saveNew now doc = (case doc of Inl e \<Rightarrow> Inl e | Inr t \<Rightarrow> save_tx True now t)"

text \<open>The two queries of the issue handler:
  \<^verbatim>\<open>Transaction.find({user: userId, status: 'overdue'})\<close> and
  \<^verbatim>\<open>Transaction.find({user: userId, status: {$in: ['active', 'overdue']}})\<close>.\<close>

definition overdueBooks :: "nat \<Rightarrow> transaction list \<Rightarrow> transaction list" where
  "overdueBooks userId txs = filter (\<lambda>t. user t = userId \<and> status t = overdue) txs"

definition activeTransactions :: "nat \<Rightarrow> transaction list \<Rightarrow> transaction list" where
  "activeTransactions userId txs =
     filter (\<lambda>t. user t = userId \<and> status t \<in> {active, overdue}) txs"

text \<open>\<^verbatim>\<open>POST /issue\<close>. \<open>valid\<close> is the outcome of the express-validator chain, and
  \<open>reqDueDate\<close> is \<^verbatim>\<open>new Date(dueDate)\<close> when the body has a due date.\<close>

definition issue ::
  "bool \<Rightarrow> actor \<Rightarrow> nat \<Rightarrow> nat \<Rightarrow> jsdate option \<Rightarrow> int \<Rightarrow> db \<Rightarrow> db \<times> response" where
  "issue valid act bookId userId reqDueDate now s =
     (if \<not> valid then (s, Response 400 ''Validation failed'' None)
      else if actorRole act \<noteq> admin
        then (s, Response 403 ''Admin access required to issue books'' None)
      else case findById bookId (books s) of
        None \<Rightarrow> (s, Response 404 ''Book not found'' None)
      | Some bk \<Rightarrow>
      (case findById userId (users s) of
        None \<Rightarrow> (s, Response 404 ''User not found'' None)
      | Some usr \<Rightarrow>
        if \<not> canBorrow bk
          then (s, Response 400 ''Book is not available for borrowing'' None)
        else if length (overdueBooks userId (transactions s)) > 0
          then (s, Response 400
            ''User has overdue books. Please return them before borrowing new books.'' None)
        else if length (activeTransactions userId (transactions s)) \<ge> 5
          then (s, Response 400 ''User has reached maximum borrowing limit (5 books)'' None)
        else
          (let tx = constructTransaction now userId bookId
                      (case reqDueDate of
                         Some d \<Rightarrow> d
                       | None \<Rightarrow> Date (now + 14 * 24 * 60 * 60 * 1000))
                      (actorId act)
           in case borrowBook now bk of
                Inl e \<Rightarrow> (s, Response 500 ''Failed to issue book'' None)
              | Inr bk' \<Rightarrow>
                  (let s1 = s\<lparr>books := (books s)[bookId := bk']\<rparr>
                   in case saveNew now tx of
                        Inl e \<Rightarrow> (s1, Response 500 ''Failed to issue book'' None)
                      | Inr tx' \<Rightarrow>
                          (s1\<lparr>transactions := transactions s1 @ [tx']\<rparr>,
                           Response 201 ''Book issued successfully'' (Some tx'))))))"

text \<open>\<^verbatim>\<open>.populate('book', 'title author isbn')\<close>: the referenced book is loaded with the
  three selected fields only, so both counters read as \<^verbatim>\<open>undefined\<close> on the populated
  document (the remaining fields of \<open>bookdoc\<close> are not read through it).\<close>

definition populate_title_author_isbn :: "bookdoc \<Rightarrow> bookdoc" where
  "populate_title_author_isbn b = b\<lparr>totalCopies := None, availableCopies := None\<rparr>"

text \<open>\<^verbatim>\<open>POST /return\<close>. The transaction is saved first, then the populated book.\<close>

definition return_handler :: "bool \<Rightarrow> actor \<Rightarrow> nat \<Rightarrow> int \<Rightarrow> db \<Rightarrow> db \<times> response" where
  "return_handler valid act transactionId now s =
     (if \<not> valid then (s, Response 400 ''Validation failed'' None)
      else if actorRole act \<noteq> admin
        then (s, Response 403 ''Admin access required to return books'' None)
      else case findById transactionId (transactions s) of
        None \<Rightarrow> (s, Response 404 ''Transaction not found'' None)
      | Some tx \<Rightarrow>
        if status tx = returned then (s, Response 400 ''Book already returned'' None)
        else
          (case returnBook now tx of
             Inl e \<Rightarrow> (s, Response 500 ''Failed to return book'' None)
           | Inr tx' \<Rightarrow>
               (let s1 = s\<lparr>transactions := (transactions s)[transactionId := tx']\<rparr>
                in case findById (book tx') (books s1) of
                     None \<Rightarrow> (s1, Response 500 ''Failed to return book'' None)
                   | Some bk \<Rightarrow>
                       (case book_returnBook (populate_title_author_isbn bk) of
                          Inl e \<Rightarrow> (s1, Response 500 ''Failed to return book'' None)
                        | Inr bk' \<Rightarrow>
                            (s1\<lparr>books := (books s1)
                                   [book tx' := bk\<lparr>availableCopies := availableCopies bk'\<rparr>]\<rparr>,
                             Response 200 ''Book returned successfully'' (Some tx'))))))"

text \<open>\<^verbatim>\<open>POST /renew\<close>. The borrower is populated before the ownership check; a
  reference that does not resolve makes \<^verbatim>\<open>transaction.user._id\<close> throw.\<close>

definition renew :: "bool \<Rightarrow> actor \<Rightarrow> nat \<Rightarrow> int \<Rightarrow> db \<Rightarrow> db \<times> response" where
  "renew valid act transactionId now s =
     (if \<not> valid then (s, Response 400 ''Validation failed'' None)
      else case findById transactionId (transactions s) of
        None \<Rightarrow> (s, Response 404 ''Transaction not found'' None)
      | Some tx \<Rightarrow>
        (case findById (user tx) (users s) of
           None \<Rightarrow> (s, Response 500 ''Failed to renew book'' None)
         | Some usr \<Rightarrow>
             if actorId act \<noteq> user tx \<and> actorRole act \<noteq> admin
               then (s, Response 403 ''You can only renew your own books'' None)
             else
               (case renewBook now tx of
                  Inl e \<Rightarrow> (s, Response 500 ''Failed to renew book'' None)
                | Inr tx' \<Rightarrow>
                    (s\<lparr>transactions := (transactions s)[transactionId := tx']\<rparr>,
                     Response 200 ''Book renewed successfully'' (Some tx')))))"


section \<open>The scheduled sweep\<close>

text \<open>\<^verbatim>\<open>Transaction.findOverdue()\<close>: the active transactions whose due date has passed,
  each with its \<^verbatim>\<open>_id\<close>, in collection order.\<close>

definition findOverdue :: "int \<Rightarrow> transaction list \<Rightarrow> (nat \<times> transaction) list" where
  "findOverdue now txs =
     filter (\<lambda>(i, t). status t = active \<and> dueDate t < now) (enumerate 0 txs)"

text \<open>The \<^verbatim>\<open>bookOverdue\<close> socket event: the transaction's id and the saved document.\<close>

datatype event = bookOverdue nat transaction

text \<open>The body of \<^verbatim>\<open>checkOverdueBooks\<close>: the loop over the documents that
  \<^verbatim>\<open>findOverdue\<close> returned. One \<^verbatim>\<open>try\<close> surrounds the whole loop, so the first
  exception (a rejected save, or a populated reference that is \<^verbatim>\<open>null\<close> when the
  notification is built) ends the run. \<open>io\<close> tells whether a socket server was given.\<close>

fun sweepLoop ::
  "bool \<Rightarrow> db \<Rightarrow> int \<Rightarrow> (nat \<times> transaction) list \<Rightarrow> transaction list
     \<Rightarrow> transaction list \<times> event list" where
  "sweepLoop io s now [] txs = (txs, [])"
| "sweepLoop io s now ((i, t) # rest) txs =
     (case save_tx False now (calculateFine now t) of
        Inl e \<Rightarrow> (txs, [])
      | Inr t' \<Rightarrow>
          (let txs' = txs[i := t'] in
           if io then
             (if findById (user t') (users s) = None \<or> findById (book t') (books s) = None
              then (txs', [])
              else (let (txs'', evs) = sweepLoop io s now rest txs'
                    in (txs'', bookOverdue i t' # evs)))
           else sweepLoop io s now rest txs'))"

definition checkOverdueBooks :: "bool \<Rightarrow> int \<Rightarrow> db \<Rightarrow> db \<times> event list" where
  "checkOverdueBooks io now s =
     (let (txs', evs) = sweepLoop io s now (findOverdue now (transactions s)) (transactions s)
      in (s\<lparr>transactions := txs'\<rparr>, evs))"

section \<open>Sequences of operations\<close>

datatype operation =
    Issue bool actor nat nat "jsdate option"
  | Return bool actor nat
  | Renew bool actor nat
  | Sweep bool

fun perform :: "operation \<times> int \<Rightarrow> db \<Rightarrow> db" where
  "perform (Issue valid act bookId userId reqDueDate, now) s =
     fst (issue valid act bookId userId reqDueDate now s)"
| "perform (Return valid act transactionId, now) s =
     fst (return_handler valid act transactionId now s)"
| "perform (Renew valid act transactionId, now) s =
     fst (renew valid act transactionId now s)"
| "perform (Sweep io, now) s = fst (checkOverdueBooks io now s)"

text \<open>Operations applied from left to right, each with its own clock reading.\<close>

definition run :: "(operation \<times> int) list \<Rightarrow> db \<Rightarrow> db" where
  "run ops s = foldl (\<lambda>st step. perform step st) s ops"

section \<open>Invariants\<close>

text \<open>The inventory invariant of a book document: both counters are present and
  \<open>0 \<le> availableCopies \<le> totalCopies\<close>.\<close>

definition inventory_ok :: "bookdoc \<Rightarrow> bool" where
  "inventory_ok b =
     (case (availableCopies b, totalCopies b) of
        (Some a, Some t) \<Rightarrow> 0 \<le> a \<and> a \<le> t
      | _ \<Rightarrow> False)"

text \<open>The state invariant of a transaction: no return date exactly in the three open states.\<close>

definition tx_state_ok :: "transaction \<Rightarrow> bool" where
  "tx_state_ok t = ((returnDate t = None) = (status t \<in> {active, overdue, renewed}))"

text \<open>A well-formed store: every transaction refers to an existing user and book, obeys the
  state invariant and passes the schema validators. Every store that the operations build
  from an empty transaction collection is well-formed (\<open>run_wellformed\<close> below).\<close>

definition wellformed :: "db \<Rightarrow> bool" where
  "wellformed s =
     (\<forall>t\<in>set (transactions s).
        user t < length (users s) \<and> book t < length (books s) \<and>
        tx_state_ok t \<and> validate_tx t = None)"

section \<open>Example data\<close>

definition ex_admin :: actor where
  "ex_admin = \<lparr>actorId = 0, actorRole = admin\<rparr>"

definition ex_book :: bookdoc where
  "ex_book = \<lparr>totalCopies = Some 1, availableCopies = Some 1, isActive = True,
              lastBorrowed = None, borrowCount = 0\<rparr>"

text \<open>One title with a single copy, an administrator (user 0) and a member (user 1).\<close>

definition ex_db :: db where
  "ex_db = \<lparr>books = [ex_book],
            users = [\<lparr>userRole = admin, userIsActive = True\<rparr>,
                     \<lparr>userRole = member, userIsActive = True\<rparr>],
            transactions = []\<rparr>"

text \<open>Fifteen days after the loan of the example, one day past its due date.\<close>

definition ex_late :: int where
  "ex_late = 1000 + 15 * day_ms"

text \<open>The loan is issued at time 1000, the sweep runs fifteen days later, then the book
  is returned.\<close>

definition ex_scenario :: "(operation \<times> int) list" where
  "ex_scenario =
     [(Issue True ex_admin 0 1 None, 1000), (Sweep True, ex_late), (Return True ex_admin 0, ex_late)]"

text \<open>The transaction that this loan creates.\<close>

definition ex_tx :: transaction where
  "ex_tx = \<lparr>user = 1, book = 0, txtype = borrow, borrowDate = 1000,
            dueDate = 1000 + fourteen_days, returnDate = None, status = active,
            fineAmount = 0, renewalCount = 0, processedBy = 0\<rparr>"

text \<open>The store after the loan, after the sweep and after the return of the example.\<close>

definition ex_issued :: db where
  "ex_issued =
     \<lparr>books = [ex_book\<lparr>availableCopies := Some 0, borrowCount := 1, lastBorrowed := Some 1000\<rparr>],
      users = users ex_db,
      transactions = [ex_tx]\<rparr>"

definition ex_swept :: db where
  "ex_swept = ex_issued\<lparr>transactions := [ex_tx\<lparr>status := overdue\<rparr>]\<rparr>"

definition ex_returned :: db where
  "ex_returned =
     ex_issued\<lparr>transactions := [ex_tx\<lparr>returnDate := Some ex_late, status := returned\<rparr>]\<rparr>"

text \<open>The example loan after one renewal at time 2000.\<close>

definition ex_renewed_tx :: transaction where
  "ex_renewed_tx =
     ex_tx\<lparr>renewalCount := 1, dueDate := 1000 + 2 * fourteen_days, status := renewed\<rparr>"

definition ex_renewed :: db where
  "ex_renewed = ex_issued\<lparr>transactions := [ex_renewed_tx]\<rparr>"

text \<open>Variants of the example store: the member deactivated; the title withdrawn
  (soft-deleted); an overdue loan next to a second, available title; five open loans of the
  member.\<close>

definition ex_deactivated :: db where
  "ex_deactivated =
     ex_db\<lparr>users := [\<lparr>userRole = admin, userIsActive = True\<rparr>,
                      \<lparr>userRole = member, userIsActive = False\<rparr>]\<rparr>"

definition ex_withdrawn :: db where
  "ex_withdrawn = ex_db\<lparr>books := [ex_book\<lparr>isActive := False\<rparr>]\<rparr>"

definition ex_overdue_db :: db where
  "ex_overdue_db = ex_swept\<lparr>books := books ex_swept @ [ex_book]\<rparr>"

definition ex_cap_db :: db where
  "ex_cap_db = ex_db\<lparr>transactions := replicate 5 ex_tx\<rparr>"


section \<open>Basic facts about the models\<close>

lemma save_book_inventory: "save_book b = Inr b' \<Longrightarrow> inventory_ok b'"
  by (auto simp: save_book_def validate_book_def preSaveCap_def inventory_ok_def js_gt_def js_lt_def
           split: option.splits if_splits)

lemma borrowBook_inventory: "borrowBook now b = Inr b' \<Longrightarrow> inventory_ok b'"
  by (auto simp: borrowBook_def dest: save_book_inventory split: if_splits)

lemma book_returnBook_inventory: "book_returnBook b = Inr b' \<Longrightarrow> inventory_ok b'"
  by (auto simp: book_returnBook_def dest: save_book_inventory split: if_splits)

lemma book_returnBook_populated:
  "book_returnBook (populate_title_author_isbn b) = Inl (Error ''All copies are already available'')"
  by (simp add: book_returnBook_def populate_title_author_isbn_def js_lt_def)

text \<open>A fractional counter: half a copy of one available is raised to one and a half, which
  the hook caps to the total.\<close>

lemma book_returnBook_fraction:
  "book_returnBook (ex_book\<lparr>availableCopies := Some (1 / 2)\<rparr>) = Inr ex_book"
  by code_simp

lemma return_handler_books: "books (fst (return_handler valid act i now s)) = books s"
  by (simp add: return_handler_def book_returnBook_populated Let_def split: option.splits sum.splits)

lemma renew_books: "books (fst (renew valid act i now s)) = books s"
  by (simp add: renew_def split: option.splits sum.splits)

lemma checkOverdueBooks_books: "books (fst (checkOverdueBooks io now s)) = books s"
  by (simp add: checkOverdueBooks_def split: prod.splits)

lemma checkOverdueBooks_users: "users (fst (checkOverdueBooks io now s)) = users s"
  by (simp add: checkOverdueBooks_def split: prod.splits)

lemma issue_books:
  assumes "\<forall>b\<in>set (books s). inventory_ok b"
  shows "\<forall>b\<in>set (books (fst (issue valid act bookId userId due now s))). inventory_ok b"
  using assms
  by (auto simp: issue_def Let_def dest!: borrowBook_inventory set_update_subset_insert[THEN subsetD]
           split: option.splits sum.splits)

lemma perform_inventory:
  "\<forall>b\<in>set (books s). inventory_ok b \<Longrightarrow> \<forall>b\<in>set (books (perform step s)). inventory_ok b"
proof (cases step)
  case (Pair opn now)
  assume inv: "\<forall>b\<in>set (books s). inventory_ok b"
  show ?thesis
  proof (cases opn)
    case (Issue valid act bookId userId due)
    with Pair inv issue_books show ?thesis by simp
  next
    case (Return valid act i)
    with Pair inv show ?thesis by (simp add: return_handler_books)
  next
    case (Renew valid act i)
    with Pair inv show ?thesis by (simp add: renew_books)
  next
    case (Sweep io)
    with Pair inv show ?thesis by (simp add: checkOverdueBooks_books)
  qed
qed

lemma run_invariant:
  assumes "\<And>step s. I s \<Longrightarrow> I (perform step s)" and "I s"
  shows "I (run ops s)"
  using assms(2) unfolding run_def
proof (induction ops arbitrary: s)
  case Nil
  then show ?case by simp
next
  case (Cons a ops)
  from assms(1)[OF Cons.prems] have "I (perform a s)" .
  from Cons.IH[OF this] show ?case by simp
qed

lemma run_inventory:
  "\<forall>b\<in>set (books s). inventory_ok b \<Longrightarrow> \<forall>b\<in>set (books (run ops s)). inventory_ok b"
  by (rule run_invariant[where I = "\<lambda>s. \<forall>b\<in>set (books s). inventory_ok b"])
     (simp_all add: perform_inventory)

lemma save_tx_Inr:
  "save_tx isNew now t = Inr t' \<Longrightarrow>
     validate_tx t = None \<and> t' = preSaveOverdue now (preSaveDueDate isNew t)"
  by (auto simp: save_tx_def split: option.splits)

lemma hooks_fields [simp]:
  "user (preSaveOverdue now t) = user t" "book (preSaveOverdue now t) = book t"
  "fineAmount (preSaveOverdue now t) = fineAmount t"
  "renewalCount (preSaveOverdue now t) = renewalCount t"
  "returnDate (preSaveOverdue now t) = returnDate t"
  "dueDate (preSaveOverdue now t) = dueDate t"
  "user (preSaveDueDate isNew t) = user t" "book (preSaveDueDate isNew t) = book t"
  "fineAmount (preSaveDueDate isNew t) = fineAmount t"
  "renewalCount (preSaveDueDate isNew t) = renewalCount t"
  "returnDate (preSaveDueDate isNew t) = returnDate t"
  "status (preSaveDueDate isNew t) = status t"
  by (simp_all add: preSaveOverdue_def preSaveDueDate_def)

lemma validate_tx_hooks [simp]:
  "validate_tx (preSaveOverdue now t) = validate_tx t"
  "validate_tx (preSaveDueDate isNew t) = validate_tx t"
  by (simp_all add: validate_tx_def)

lemma tx_state_ok_preSaveOverdue: "tx_state_ok t \<Longrightarrow> tx_state_ok (preSaveOverdue now t)"
  by (auto simp: tx_state_ok_def preSaveOverdue_def)

lemma tx_state_ok_preSaveDueDate [simp]: "tx_state_ok (preSaveDueDate isNew t) = tx_state_ok t"
  by (simp add: tx_state_ok_def)

lemma calculateFine_fields [simp]:
  "user (calculateFine now t) = user t" "book (calculateFine now t) = book t"
  "status (calculateFine now t) = status t" "returnDate (calculateFine now t) = returnDate t"
  "renewalCount (calculateFine now t) = renewalCount t" "dueDate (calculateFine now t) = dueDate t"
  by (simp_all add: calculateFine_def Let_def)

lemma calculateFine_not_overdue: "status t \<noteq> overdue \<Longrightarrow> calculateFine now t = t"
  by (simp add: calculateFine_def)

lemma ceil_div_ceiling: "ceil_div a b = \<lceil>real_of_int a / real_of_int b\<rceil>"
  by (simp add: ceil_div_def ceiling_divide_eq_div)

text \<open>On an overdue transaction the fine is one unit per started day past the due date.\<close>

lemma calculateFine_overdue:
  "status t = overdue \<Longrightarrow>
   calculateFine now t =
     t\<lparr>fineAmount := \<lceil>real_of_int (now - dueDate t) / real_of_int day_ms\<rceil>\<rparr>"
  by (simp add: calculateFine_def Let_def ceil_div_ceiling)

text \<open>Called on the example loan once it is overdue, one day late, it would assign 1.\<close>

lemma calculateFine_one_day_late:
  "fineAmount (calculateFine ex_late (ex_tx\<lparr>status := overdue\<rparr>)) = 1"
  by code_simp

text \<open>A property of single transactions that every save in the sweep keeps is kept by the sweep.\<close>

lemma sweepLoop_preserves:
  assumes step: "\<And>t t'. P t \<Longrightarrow> status t = active \<Longrightarrow>
                   save_tx False now (calculateFine now t) = Inr t' \<Longrightarrow> P t'"
    and "\<forall>(i, t)\<in>set L. P t \<and> status t = active" and "\<forall>t\<in>set txs. P t"
  shows "\<forall>t\<in>set (fst (sweepLoop io s now L txs)). P t"
  using assms(2,3)
proof (induction L arbitrary: txs)
  case Nil
  then show ?case by simp
next
  case (Cons p L)
  obtain i t where p: "p = (i, t)" by (cases p)
  show ?case
  proof (cases "save_tx False now (calculateFine now t)")
    case (Inl e)
    with Cons.prems p show ?thesis by simp
  next
    case (Inr t')
    from Cons.prems p have "P t" "status t = active" by auto
    with Inr step have "P t'" by blast
    with Cons.prems(2) have upd: "\<forall>x\<in>set (txs[i := t']). P x"
      using set_update_subset_insert[of txs i t'] by auto
    from Cons.prems(1) have rest: "\<forall>(i, t)\<in>set L. P t \<and> status t = active" by simp
    from Cons.IH[OF rest upd] upd Inr p show ?thesis
      by (simp add: Let_def split: prod.splits)
  qed
qed

lemma findOverdue_set:
  "(i, t) \<in> set (findOverdue now txs) \<Longrightarrow> t \<in> set txs \<and> status t = active \<and> dueDate t < now"
  by (auto simp: findOverdue_def in_set_enumerate_eq)

lemma checkOverdueBooks_preserves:
  assumes step: "\<And>t t'. P t \<Longrightarrow> status t = active \<Longrightarrow>
                   save_tx False now (calculateFine now t) = Inr t' \<Longrightarrow> P t'"
    and all: "\<forall>t\<in>set (transactions s). P t"
  shows "\<forall>t\<in>set (transactions (fst (checkOverdueBooks io now s))). P t"
proof -
  have found: "\<forall>(i, t)\<in>set (findOverdue now (transactions s)). P t \<and> status t = active"
    using all by (auto dest: findOverdue_set)
  have "\<forall>t\<in>set (fst (sweepLoop io s now (findOverdue now (transactions s)) (transactions s))). P t"
  proof (rule sweepLoop_preserves)
    show "\<And>t t'. P t \<Longrightarrow> status t = active \<Longrightarrow>
            save_tx False now (calculateFine now t) = Inr t' \<Longrightarrow> P t'"
      by (rule step)
  qed (rule found, rule all)
  then show ?thesis by (simp add: checkOverdueBooks_def split: prod.splits)
qed


lemma returnBook_Inr:
  "returnBook now t = Inr t' \<Longrightarrow>
     status t \<noteq> returned \<and> validate_tx t = None \<and>
     t' = t\<lparr>returnDate := Some now, status := returned\<rparr>"
  by (auto simp: returnBook_def save_tx_def calculateFine_def preSaveOverdue_def
                 preSaveDueDate_def validate_tx_def split: if_splits option.splits)

lemma renewBook_Inr:
  "renewBook now t = Inr t' \<Longrightarrow>
     status t = active \<and> renewalCount t < 3 \<and> 0 \<le> fineAmount t \<and>
     t' = t\<lparr>renewalCount := renewalCount t + 1, dueDate := dueDate t + fourteen_days,
            status := renewed\<rparr>"
  by (auto simp: renewBook_def save_tx_def preSaveOverdue_def
                 preSaveDueDate_def validate_tx_def split: if_splits option.splits)

lemma issue_transactions:
  "transactions (fst (issue valid act bookId userId due now s)) = transactions s \<or>
   (bookId < length (books s) \<and> userId < length (users s) \<and>
    (\<exists>d. transactions (fst (issue valid act bookId userId due now s)) =
       transactions s @
         [preSaveOverdue now (preSaveDueDate True
            (newTransaction now userId bookId d (actorId act)))]))"
proof (cases "findById bookId (books s)")
  case None
  then show ?thesis by (simp add: issue_def)
next
  case bk: (Some bk)
  show ?thesis
  proof (cases "findById userId (users s)")
    case None
    with bk show ?thesis by (simp add: issue_def)
  next
    case (Some usr)
    from bk Some have lens: "bookId < length (books s)" "userId < length (users s)"
      by (auto simp: findById_def split: if_splits)
    show ?thesis
    proof (cases "borrowBook now bk")
      case (Inl e)
      with bk Some show ?thesis by (simp add: issue_def Let_def)
    next
      case (Inr bk')
      with bk Some lens show ?thesis
        by (simp add: issue_def Let_def saveNew_def constructTransaction_def save_tx_def
                 split: option.splits jsdate.splits)
           blast+
    qed
  qed
qed

lemma return_handler_transactions:
  "transactions (fst (return_handler valid act i now s)) = transactions s \<or>
   (\<exists>tx tx'. tx \<in> set (transactions s) \<and> returnBook now tx = Inr tx' \<and>
      transactions (fst (return_handler valid act i now s)) = (transactions s)[i := tx'])"
proof (cases "findById i (transactions s)")
  case None
  then show ?thesis by (simp add: return_handler_def)
next
  case (Some tx)
  then have mem: "tx \<in> set (transactions s)"
    by (auto simp: findById_def split: if_splits)
  show ?thesis
  proof (cases "returnBook now tx")
    case (Inl e)
    with Some show ?thesis by (simp add: return_handler_def)
  next
    case (Inr tx')
    with Some mem show ?thesis
      by (auto simp add: return_handler_def Let_def book_returnBook_populated split: option.splits)
  qed
qed

lemma renew_transactions:
  "transactions (fst (renew valid act i now s)) = transactions s \<or>
   (\<exists>tx tx'. tx \<in> set (transactions s) \<and> renewBook now tx = Inr tx' \<and>
      transactions (fst (renew valid act i now s)) = (transactions s)[i := tx'])"
proof (cases "findById i (transactions s)")
  case None
  then show ?thesis by (simp add: renew_def)
next
  case (Some tx)
  then have mem: "tx \<in> set (transactions s)"
    by (auto simp: findById_def split: if_splits)
  show ?thesis
  proof (cases "renewBook now tx")
    case (Inl e)
    with Some show ?thesis by (simp add: renew_def split: option.splits)
  next
    case (Inr tx')
    with Some mem show ?thesis
      by (auto simp add: renew_def split: option.splits)
  qed
qed

lemma issue_lengths:
  "length (books (fst (issue valid act bookId userId due now s))) = length (books s)"
  "users (fst (issue valid act bookId userId due now s)) = users s"
  by (simp_all add: issue_def Let_def split: option.splits sum.splits)

lemma return_handler_users: "users (fst (return_handler valid act i now s)) = users s"
  by (simp add: return_handler_def book_returnBook_populated Let_def split: option.splits sum.splits)

lemma renew_users: "users (fst (renew valid act i now s)) = users s"
  by (simp add: renew_def split: option.splits sum.splits)

text \<open>Every operation keeps a property of single transactions that creation establishes
  and that the three ways of saving a transaction keep.\<close>

lemma perform_preserves:
  assumes new: "\<And>now u b d a. u < length (users s) \<Longrightarrow> b < length (books s) \<Longrightarrow>
                   P (preSaveOverdue now (preSaveDueDate True (newTransaction now u b d a)))"
    and ret: "\<And>now t t'. P t \<Longrightarrow> returnBook now t = Inr t' \<Longrightarrow> P t'"
    and ren: "\<And>now t t'. P t \<Longrightarrow> renewBook now t = Inr t' \<Longrightarrow> P t'"
    and swp: "\<And>now t t'. P t \<Longrightarrow> status t = active \<Longrightarrow>
                   save_tx False now (calculateFine now t) = Inr t' \<Longrightarrow> P t'"
    and all: "\<forall>t\<in>set (transactions s). P t"
  shows "\<forall>t\<in>set (transactions (perform step s)). P t"
proof (cases step)
  case (Pair opn now)
  show ?thesis
  proof (cases opn)
    case (Issue valid act bookId userId due)
    with Pair all new issue_transactions[of valid act bookId userId due now s]
    show ?thesis by auto
  next
    case (Return valid act i)
    have "\<forall>t\<in>set (transactions (fst (return_handler valid act i now s))). P t"
      using return_handler_transactions[of valid act i now s]
    proof (elim disjE exE conjE)
      fix tx tx'
      assume "tx \<in> set (transactions s)" "returnBook now tx = Inr tx'"
        and eq: "transactions (fst (return_handler valid act i now s)) = (transactions s)[i := tx']"
      with all ret have "P tx'" by blast
      with all show ?thesis
        unfolding eq using set_update_subset_insert[of "transactions s" i tx'] by blast
    qed (simp add: all)
    with Pair Return show ?thesis by simp
  next
    case (Renew valid act i)
    have "\<forall>t\<in>set (transactions (fst (renew valid act i now s))). P t"
      using renew_transactions[of valid act i now s]
    proof (elim disjE exE conjE)
      fix tx tx'
      assume "tx \<in> set (transactions s)" "renewBook now tx = Inr tx'"
        and eq: "transactions (fst (renew valid act i now s)) = (transactions s)[i := tx']"
      with all ren have "P tx'" by blast
      with all show ?thesis
        unfolding eq using set_update_subset_insert[of "transactions s" i tx'] by blast
    qed (simp add: all)
    with Pair Renew show ?thesis by simp
  next
    case (Sweep io)
    have "\<forall>t\<in>set (transactions (fst (checkOverdueBooks io now s))). P t"
    proof (rule checkOverdueBooks_preserves)
      show "\<And>t t'. P t \<Longrightarrow> status t = active \<Longrightarrow>
            save_tx False now (calculateFine now t) = Inr t' \<Longrightarrow> P t'"
        by (rule swp)
    qed (rule all)
    with Pair Sweep show ?thesis by simp
  qed
qed

lemma perform_tx_state_ok:
  "\<forall>t\<in>set (transactions s). tx_state_ok t \<Longrightarrow>
   \<forall>t\<in>set (transactions (perform step s)). tx_state_ok t"
proof (rule perform_preserves)
  show "\<And>now u b d a. u < length (users s) \<Longrightarrow> b < length (books s) \<Longrightarrow>
          tx_state_ok (preSaveOverdue now (preSaveDueDate True (newTransaction now u b d a)))"
    by (rule tx_state_ok_preSaveOverdue) (simp add: tx_state_ok_def newTransaction_def)
  show "\<And>now t t'. tx_state_ok t \<Longrightarrow> returnBook now t = Inr t' \<Longrightarrow> tx_state_ok t'"
    by (auto dest!: returnBook_Inr simp: tx_state_ok_def)
  show "\<And>now t t'. tx_state_ok t \<Longrightarrow> renewBook now t = Inr t' \<Longrightarrow> tx_state_ok t'"
    by (auto dest!: renewBook_Inr simp: tx_state_ok_def)
  show "\<And>now t t'. tx_state_ok t \<Longrightarrow> status t = active \<Longrightarrow>
          save_tx False now (calculateFine now t) = Inr t' \<Longrightarrow> tx_state_ok t'"
    by (auto dest!: save_tx_Inr simp: calculateFine_not_overdue preSaveDueDate_def
             intro: tx_state_ok_preSaveOverdue)
qed

lemma perform_fine_zero:
  "\<forall>t\<in>set (transactions s). fineAmount t = 0 \<Longrightarrow>
   \<forall>t\<in>set (transactions (perform step s)). fineAmount t = 0"
proof (rule perform_preserves)
  show "\<And>now u b d a. u < length (users s) \<Longrightarrow> b < length (books s) \<Longrightarrow>
          fineAmount (preSaveOverdue now (preSaveDueDate True (newTransaction now u b d a))) = 0"
    by (simp add: newTransaction_def)
  show "\<And>now t t'. fineAmount t = 0 \<Longrightarrow> returnBook now t = Inr t' \<Longrightarrow> fineAmount t' = 0"
    by (auto dest!: returnBook_Inr)
  show "\<And>now t t'. fineAmount t = 0 \<Longrightarrow> renewBook now t = Inr t' \<Longrightarrow> fineAmount t' = 0"
    by (auto dest!: renewBook_Inr)
  show "\<And>now t t'. fineAmount t = 0 \<Longrightarrow> status t = active \<Longrightarrow>
          save_tx False now (calculateFine now t) = Inr t' \<Longrightarrow> fineAmount t' = 0"
    by (auto dest!: save_tx_Inr simp: calculateFine_not_overdue)
qed


lemma run_tx_state_ok:
  "\<forall>t\<in>set (transactions s). tx_state_ok t \<Longrightarrow> \<forall>t\<in>set (transactions (run ops s)). tx_state_ok t"
  by (rule run_invariant[where I = "\<lambda>s. \<forall>t\<in>set (transactions s). tx_state_ok t"])
     (simp_all add: perform_tx_state_ok)

lemma run_fine_zero:
  "\<forall>t\<in>set (transactions s). fineAmount t = 0 \<Longrightarrow> \<forall>t\<in>set (transactions (run ops s)). fineAmount t = 0"
  by (rule run_invariant[where I = "\<lambda>s. \<forall>t\<in>set (transactions s). fineAmount t = 0"])
     (simp_all add: perform_fine_zero)

section \<open>Inventory and transaction invariants\<close>

text \<open>
  Claim C7. After every operation on a book, \<open>0 \<le> availableCopies \<le> totalCopies\<close>:
  every successful save of a book document (validation, then the capping hook) yields a
  document with both counters present and in that order; \<^verbatim>\<open>borrowBook\<close> and
  \<^verbatim>\<open>returnBook\<close> of the Book model end in such a save; and every sequence of issue,
  return, renew and sweep operations keeps the invariant on all stored books.
\<close>

theorem inventory_invariant:
  "(save_book b1 = Inr b1' \<longrightarrow> inventory_ok b1') \<and>
   (borrowBook now b2 = Inr b2' \<longrightarrow> inventory_ok b2') \<and>
   (book_returnBook b3 = Inr b3' \<longrightarrow> inventory_ok b3') \<and>
   ((\<forall>b\<in>set (books s). inventory_ok b) \<longrightarrow> (\<forall>b\<in>set (books (run ops s)). inventory_ok b))"
  using save_book_inventory borrowBook_inventory book_returnBook_inventory run_inventory
  by blast

theorem inventory_invariant_witness:
  "save_book (ex_book\<lparr>availableCopies := Some 5\<rparr>) = Inr ex_book \<and> inventory_ok ex_book \<and>
   borrowBook 1000 ex_book =
     Inr (ex_book\<lparr>availableCopies := Some 0, borrowCount := 1, lastBorrowed := Some 1000\<rparr>) \<and>
   inventory_ok (ex_book\<lparr>availableCopies := Some 0, borrowCount := 1, lastBorrowed := Some 1000\<rparr>) \<and>
   book_returnBook (ex_book\<lparr>availableCopies := Some 0\<rparr>) = Inr ex_book \<and>
   list_all inventory_ok (books ex_db) \<and>
   list_all inventory_ok (books (run ex_scenario ex_db))"
proof -
  have h1: "save_book (ex_book\<lparr>availableCopies := Some 5\<rparr>) = Inr ex_book" by code_simp
  have h2: "borrowBook 1000 ex_book =
     Inr (ex_book\<lparr>availableCopies := Some 0, borrowCount := 1, lastBorrowed := Some 1000\<rparr>)"
    by code_simp
  have h3: "book_returnBook (ex_book\<lparr>availableCopies := Some 0\<rparr>) = Inr ex_book" by code_simp
  have h4: "\<forall>b\<in>set (books ex_db). inventory_ok b" by code_simp
  from h1 h2 h3 h4
    inventory_invariant[of "ex_book\<lparr>availableCopies := Some 5\<rparr>" ex_book 1000 ex_book
      "ex_book\<lparr>availableCopies := Some 0, borrowCount := 1, lastBorrowed := Some 1000\<rparr>"
      "ex_book\<lparr>availableCopies := Some 0\<rparr>" ex_book ex_db ex_scenario]
  show ?thesis unfolding list_all_iff by blast
qed

text \<open>
  Claim C8. \<^verbatim>\<open>returnDate\<close> is \<^verbatim>\<open>null\<close> exactly when the status is active, overdue or
  renewed: the invariant holds for a newly created transaction, a renewal and the overdue
  promotion of the pre-save hook keep it, a return establishes it, and every sequence of
  issue, return, renew and sweep operations keeps it on all stored transactions.
\<close>

theorem tx_state_invariant:
  "(save_tx True now1 (newTransaction now1 u b d a) = Inr t1' \<longrightarrow> tx_state_ok t1') \<and>
   (tx_state_ok t2 \<and> renewBook now2 t2 = Inr t2' \<longrightarrow> tx_state_ok t2') \<and>
   (returnBook now3 t3 = Inr t3' \<longrightarrow> tx_state_ok t3') \<and>
   (tx_state_ok t4 \<longrightarrow> tx_state_ok (preSaveOverdue now4 t4)) \<and>
   ((\<forall>t\<in>set (transactions s). tx_state_ok t) \<longrightarrow>
      (\<forall>t\<in>set (transactions (run ops s)). tx_state_ok t))"
proof (intro conjI impI)
  assume "save_tx True now1 (newTransaction now1 u b d a) = Inr t1'"
  then have "t1' = preSaveOverdue now1 (preSaveDueDate True (newTransaction now1 u b d a))"
    by (simp add: save_tx_Inr)
  moreover have "tx_state_ok (preSaveDueDate True (newTransaction now1 u b d a))"
    by (simp add: tx_state_ok_def newTransaction_def)
  ultimately show "tx_state_ok t1'" by (simp add: tx_state_ok_preSaveOverdue)
next
  assume "tx_state_ok t2 \<and> renewBook now2 t2 = Inr t2'"
  then show "tx_state_ok t2'" by (auto dest!: renewBook_Inr simp: tx_state_ok_def)
next
  assume "returnBook now3 t3 = Inr t3'"
  then show "tx_state_ok t3'" by (auto dest!: returnBook_Inr simp: tx_state_ok_def)
next
  assume "tx_state_ok t4"
  then show "tx_state_ok (preSaveOverdue now4 t4)" by (rule tx_state_ok_preSaveOverdue)
next
  assume "\<forall>t\<in>set (transactions s). tx_state_ok t"
  then show "\<forall>t\<in>set (transactions (run ops s)). tx_state_ok t" by (rule run_tx_state_ok)
qed

theorem tx_state_invariant_witness:
  "save_tx True 1000 (newTransaction 1000 1 0 (1000 + fourteen_days) 0) = Inr ex_tx \<and>
   tx_state_ok ex_tx \<and>
   renewBook 2000 ex_tx =
     Inr (ex_tx\<lparr>renewalCount := 1, dueDate := 1000 + 2 * fourteen_days, status := renewed\<rparr>) \<and>
   tx_state_ok (ex_tx\<lparr>renewalCount := 1, dueDate := 1000 + 2 * fourteen_days, status := renewed\<rparr>) \<and>
   returnBook ex_late ex_tx = Inr (ex_tx\<lparr>returnDate := Some ex_late, status := returned\<rparr>) \<and>
   tx_state_ok (ex_tx\<lparr>returnDate := Some ex_late, status := returned\<rparr>) \<and>
   preSaveOverdue ex_late ex_tx = ex_tx\<lparr>status := overdue\<rparr> \<and>
   tx_state_ok (ex_tx\<lparr>status := overdue\<rparr>) \<and>
   list_all tx_state_ok (transactions ex_db) \<and>
   list_all tx_state_ok (transactions (run ex_scenario ex_db))"
proof -
  have h1: "save_tx True 1000 (newTransaction 1000 1 0 (1000 + fourteen_days) 0) = Inr ex_tx"
    by code_simp
  have h2: "renewBook 2000 ex_tx =
     Inr (ex_tx\<lparr>renewalCount := 1, dueDate := 1000 + 2 * fourteen_days, status := renewed\<rparr>)"
    by code_simp
  have h3: "returnBook ex_late ex_tx = Inr (ex_tx\<lparr>returnDate := Some ex_late, status := returned\<rparr>)"
    by code_simp
  have h4: "preSaveOverdue ex_late ex_tx = ex_tx\<lparr>status := overdue\<rparr>" by code_simp
  have h5: "\<forall>t\<in>set (transactions ex_db). tx_state_ok t" by code_simp
  have ok: "tx_state_ok ex_tx"
    using tx_state_invariant[of 1000 1 0 "1000 + fourteen_days" 0 ex_tx] h1 by blast
  from h1 h2 h3 h4 h5 ok
    tx_state_invariant[of 1000 1 0 "1000 + fourteen_days" 0 ex_tx ex_tx 2000
      "ex_tx\<lparr>renewalCount := 1, dueDate := 1000 + 2 * fourteen_days, status := renewed\<rparr>"
      ex_late ex_tx "ex_tx\<lparr>returnDate := Some ex_late, status := returned\<rparr>"
      ex_tx ex_late ex_db ex_scenario]
  show ?thesis unfolding list_all_iff by metis
qed

text \<open>
  Claim C10. No fine is ever assigned: \<^verbatim>\<open>calculateFine\<close> changes nothing unless the
  status is overdue, the sweep calls it on documents that \<^verbatim>\<open>findOverdue\<close> selected by
  status active (the hook turns them overdue only afterwards, inside \<^verbatim>\<open>save\<close>), and
  \<^verbatim>\<open>returnBook\<close> calls it after setting the status to returned. Hence, from a store
  in which every fine is 0, every sequence of issue, return, renew and sweep operations leads
  to a store in which every fine is 0.
\<close>

theorem fine_never_assigned:
  "(status t \<noteq> overdue \<longrightarrow> calculateFine now t = t) \<and>
   ((\<forall>t\<in>set (transactions s). fineAmount t = 0) \<longrightarrow>
      (\<forall>t\<in>set (transactions (run ops s)). fineAmount t = 0))"
  using calculateFine_not_overdue run_fine_zero by blast

theorem fine_never_assigned_witness:
  "status ex_tx \<noteq> overdue \<and> calculateFine ex_late ex_tx = ex_tx \<and>
   list_all (\<lambda>t. fineAmount t = 0) (transactions ex_db) \<and>
   list_all (\<lambda>t. fineAmount t = 0) (transactions (run ex_scenario ex_db)) \<and>
   map status (transactions (run ex_scenario ex_db)) = [returned]"
proof -
  have h1: "status ex_tx \<noteq> overdue" by code_simp
  have h2: "\<forall>t\<in>set (transactions ex_db). fineAmount t = 0" by code_simp
  have h3: "map status (transactions (run ex_scenario ex_db)) = [returned]" by code_simp
  from h1 h2 h3 fine_never_assigned[of ex_tx ex_late ex_db ex_scenario]
  show ?thesis unfolding list_all_iff by blast
qed


section \<open>The fine scenario\<close>

text \<open>
  Claim C1, evaluated on the code. A book with one copy is issued at time 1000: one copy
  less, status active, due date fourteen days after the borrow date. Fifteen days later the
  sweep turns the loan overdue, but its fine stays 0: \<^verbatim>\<open>calculateFine\<close> runs while the
  status is still active. The return marks the loan returned and sets the return date, the
  fine is still 0 (\<^verbatim>\<open>calculateFine\<close> runs after the status became returned), the
  handler answers 500 and the copy is not given back: the populated book carries no
  counters, so \<^verbatim>\<open>Book.returnBook\<close> throws.
\<close>

theorem fine_scenario_evaluated:
  "issue True ex_admin 0 1 None 1000 ex_db =
     (ex_issued, Response 201 ''Book issued successfully'' (Some ex_tx)) \<and>
   dueDate ex_tx = borrowDate ex_tx + 14 * day_ms \<and>
   checkOverdueBooks True ex_late ex_issued =
     (ex_swept, [bookOverdue 0 (ex_tx\<lparr>status := overdue\<rparr>)]) \<and>
   map status (transactions ex_swept) = [overdue] \<and>
   map fineAmount (transactions ex_swept) = [0] \<and>
   return_handler True ex_admin 0 ex_late ex_swept =
     (ex_returned, Response 500 ''Failed to return book'' None) \<and>
   map status (transactions ex_returned) = [returned] \<and>
   map returnDate (transactions ex_returned) = [Some ex_late] \<and>
   map fineAmount (transactions ex_returned) = [0] \<and>
   map availableCopies (books ex_returned) = [Some 0]"
  by code_simp

section \<open>Renewals\<close>

text \<open>After a successful renewal the status is renewed (or the count has reached 3), so
  the next renewal of the same transaction throws.\<close>

lemma renewBook_once:
  assumes "renewBook now t = Inr t'"
  shows "renewBook now' t' = Inl (Error ''Maximum renewals reached'') \<or>
         renewBook now' t' = Inl (Error ''Only active transactions can be renewed'')"
  using renewBook_Inr[OF assms] by (simp add: renewBook_def)

text \<open>
  Claim C2, evaluated on the code. The first renewal of the example loan succeeds: renewal
  count 1, due date fourteen days later, status renewed. The second renewal already fails,
  since only an active transaction can be renewed, and the handler answers 500.
\<close>

theorem renew_twice_evaluated:
  "renew True ex_admin 0 2000 ex_issued =
     (ex_renewed, Response 200 ''Book renewed successfully'' (Some ex_renewed_tx)) \<and>
   renewalCount ex_renewed_tx = 1 \<and>
   dueDate ex_renewed_tx = dueDate ex_tx + 14 * day_ms \<and>
   status ex_renewed_tx = renewed \<and>
   renewBook 3000 ex_renewed_tx = Inl (Error ''Only active transactions can be renewed'') \<and>
   renew True ex_admin 0 3000 ex_renewed =
     (ex_renewed, Response 500 ''Failed to renew book'' None)"
  by code_simp

section \<open>Issuing\<close>

text \<open>Whatever due date the caller asks for, a successfully issued transaction is due
  fourteen days after its borrow date: the pre-save hook overwrites the field.\<close>

lemma issue_dueDate:
  assumes "issue valid act bookId userId reqDueDate now s = (s', Response 201 m (Some tx))"
  shows "borrowDate tx = now \<and> dueDate tx = now + fourteen_days"
proof -
  have "\<exists>d. tx = preSaveOverdue now (preSaveDueDate True
                 (newTransaction now userId bookId d (actorId act)))"
    using assms
    by (auto simp: issue_def Let_def saveNew_def constructTransaction_def save_tx_def
             split: if_splits option.splits sum.splits jsdate.splits)
  then show ?thesis
    by (auto simp: preSaveOverdue_def preSaveDueDate_def newTransaction_def)
qed

text \<open>Two requests that pass every check of the handler and are answered with 500. A due
  date that is an Invalid Date: the book is saved with one copy less, then the save of the
  transaction is rejected. Half an available copy: \<^verbatim>\<open>canBorrow\<close> holds, and the save of
  the book with minus a half is rejected.\<close>

lemma issue_invalid_date:
  "issue True ex_admin 0 1 (Some InvalidDate) 1000 ex_db =
     (ex_db\<lparr>books := books ex_issued\<rparr>, Response 500 ''Failed to issue book'' None)"
  by code_simp

lemma issue_half_copy:
  "issue True ex_admin 0 1 None 1000 (ex_db\<lparr>books := [ex_book\<lparr>availableCopies := Some (1 / 2)\<rparr>]\<rparr>) =
     (ex_db\<lparr>books := [ex_book\<lparr>availableCopies := Some (1 / 2)\<rparr>]\<rparr>,
      Response 500 ''Failed to issue book'' None)"
  by code_simp

text \<open>
  Claim C4, evaluated on the code. A loan issued at time 1000 with a requested due date
  seven days later gets the due date fourteen days after the borrow date instead.
\<close>

theorem issue_requested_dueDate_evaluated:
  "issue True ex_admin 0 1 (Some (Date (1000 + 7 * day_ms))) 1000 ex_db =
     (ex_issued, Response 201 ''Book issued successfully'' (Some ex_tx)) \<and>
   dueDate ex_tx = 1000 + 14 * day_ms \<and>
   dueDate ex_tx \<noteq> 1000 + 7 * day_ms"
  by code_simp

text \<open>
  Claim C5 as stated fails. A deactivated member still gets the book (no check reads the
  user's active flag), and for a withdrawn book and an unknown user the answer is
  ``User not found'': the book's active flag is read only after both lookups.
\<close>

theorem issue_check_order_counterexample:
  "map userIsActive (users ex_deactivated) = [True, False] \<and>
   code (snd (issue True ex_admin 0 1 None 1000 ex_deactivated)) = 201 \<and>
   map isActive (books ex_withdrawn) = [False] \<and>
   snd (issue True ex_admin 0 7 None 1000 ex_withdrawn) = Response 404 ''User not found'' None"
  by code_simp

text \<open>
  Claim C5, amended. For a valid request of an administrator the checks are, in this order
  and with the first failure deciding the answer: the book exists (404), the user exists
  (404), the book is active and has an available copy (400), the user has no overdue
  transaction (400), the user has fewer than five active or overdue transactions (400).
  The user's active flag is not consulted.
\<close>

theorem issue_check_order:
  fixes valid :: bool and act :: actor and bookId userId :: nat and due :: "jsdate option"
    and now :: int and s :: db
  assumes "valid" and "actorRole act = admin"
  defines "r \<equiv> issue valid act bookId userId due now s"
    and "bookExists \<equiv> bookId < length (books s)"
    and "userExists \<equiv> userId < length (users s)"
    and "bk \<equiv> books s ! bookId"
    and "hasOverdue \<equiv> overdueBooks userId (transactions s) \<noteq> []"
    and "atCap \<equiv> 5 \<le> length (activeTransactions userId (transactions s))"
  shows
  "(\<not> bookExists \<longrightarrow> r = (s, Response 404 ''Book not found'' None)) \<and>
   (bookExists \<and> \<not> userExists \<longrightarrow> r = (s, Response 404 ''User not found'' None)) \<and>
   (bookExists \<and> userExists \<and> \<not> canBorrow bk \<longrightarrow>
      r = (s, Response 400 ''Book is not available for borrowing'' None)) \<and>
   (bookExists \<and> userExists \<and> canBorrow bk \<and> hasOverdue \<longrightarrow>
      r = (s, Response 400
             ''User has overdue books. Please return them before borrowing new books.'' None)) \<and>
   (bookExists \<and> userExists \<and> canBorrow bk \<and> \<not> hasOverdue \<and> atCap \<longrightarrow>
      r = (s, Response 400 ''User has reached maximum borrowing limit (5 books)'' None))"
proof (intro conjI impI)
  assume "\<not> bookExists"
  with assms(1,2) show "r = (s, Response 404 ''Book not found'' None)"
    by (simp add: r_def bookExists_def issue_def findById_def)
next
  assume "bookExists \<and> \<not> userExists"
  with assms(1,2) show "r = (s, Response 404 ''User not found'' None)"
    by (simp add: r_def bookExists_def userExists_def issue_def findById_def)
next
  assume "bookExists \<and> userExists \<and> \<not> canBorrow bk"
  with assms(1,2) show "r = (s, Response 400 ''Book is not available for borrowing'' None)"
    by (simp add: r_def bookExists_def userExists_def bk_def issue_def findById_def)
next
  assume "bookExists \<and> userExists \<and> canBorrow bk \<and> hasOverdue"
  with assms(1,2) show "r = (s, Response 400
             ''User has overdue books. Please return them before borrowing new books.'' None)"
    by (simp add: r_def bookExists_def userExists_def bk_def hasOverdue_def issue_def findById_def)
next
  assume "bookExists \<and> userExists \<and> canBorrow bk \<and> \<not> hasOverdue \<and> atCap"
  with assms(1,2) show "r = (s, Response 400 ''User has reached maximum borrowing limit (5 books)'' None)"
    by (simp add: r_def bookExists_def userExists_def bk_def hasOverdue_def atCap_def
                  issue_def findById_def)
qed

theorem issue_check_order_witness:
  "issue True ex_admin 5 1 None 1000 ex_db = (ex_db, Response 404 ''Book not found'' None) \<and>
   issue True ex_admin 0 7 None 1000 ex_withdrawn =
     (ex_withdrawn, Response 404 ''User not found'' None) \<and>
   issue True ex_admin 0 1 None 1000 ex_withdrawn =
     (ex_withdrawn, Response 400 ''Book is not available for borrowing'' None) \<and>
   issue True ex_admin 1 1 None ex_late ex_overdue_db =
     (ex_overdue_db, Response 400
        ''User has overdue books. Please return them before borrowing new books.'' None) \<and>
   issue True ex_admin 0 1 None 1000 ex_cap_db =
     (ex_cap_db, Response 400 ''User has reached maximum borrowing limit (5 books)'' None)"
proof -
  have adm: "actorRole ex_admin = admin" by code_simp
  have c1: "\<not> 5 < length (books ex_db)" by code_simp
  have c2: "0 < length (books ex_withdrawn) \<and> \<not> 7 < length (users ex_withdrawn)" by code_simp
  have c3: "0 < length (books ex_withdrawn) \<and> 1 < length (users ex_withdrawn) \<and>
            \<not> canBorrow (books ex_withdrawn ! 0)" by code_simp
  have c4: "1 < length (books ex_overdue_db) \<and> 1 < length (users ex_overdue_db) \<and>
            canBorrow (books ex_overdue_db ! 1) \<and>
            overdueBooks 1 (transactions ex_overdue_db) \<noteq> []" by code_simp
  have c5: "0 < length (books ex_cap_db) \<and> 1 < length (users ex_cap_db) \<and>
            canBorrow (books ex_cap_db ! 0) \<and>
            \<not> overdueBooks 1 (transactions ex_cap_db) \<noteq> [] \<and>
            5 \<le> length (activeTransactions 1 (transactions ex_cap_db))" by code_simp
  from c1 issue_check_order[where bookId=5 and userId=1 and due=None and now=1000 and s=ex_db, OF TrueI adm]
  have r1: "issue True ex_admin 5 1 None 1000 ex_db = (ex_db, Response 404 ''Book not found'' None)"
    by blast
  from c2 issue_check_order[where bookId=0 and userId=7 and due=None and now=1000 and s=ex_withdrawn, OF TrueI adm]
  have r2: "issue True ex_admin 0 7 None 1000 ex_withdrawn =
     (ex_withdrawn, Response 404 ''User not found'' None)"
    by blast
  from c3 issue_check_order[where bookId=0 and userId=1 and due=None and now=1000 and s=ex_withdrawn, OF TrueI adm]
  have r3: "issue True ex_admin 0 1 None 1000 ex_withdrawn =
     (ex_withdrawn, Response 400 ''Book is not available for borrowing'' None)"
    by blast
  from c4 issue_check_order[where bookId=1 and userId=1 and due=None and now=ex_late and s=ex_overdue_db, OF TrueI adm]
  have r4: "issue True ex_admin 1 1 None ex_late ex_overdue_db =
     (ex_overdue_db, Response 400
        ''User has overdue books. Please return them before borrowing new books.'' None)"
    by blast
  from c5 issue_check_order[where bookId=0 and userId=1 and due=None and now=1000 and s=ex_cap_db, OF TrueI adm]
  have r5: "issue True ex_admin 0 1 None 1000 ex_cap_db =
     (ex_cap_db, Response 400 ''User has reached maximum borrowing limit (5 books)'' None)"
    by blast
  from r1 r2 r3 r4 r5 show ?thesis by blast
qed

section \<open>Returning\<close>

lemma return_handler_missing:
  "valid \<Longrightarrow> actorRole act = admin \<Longrightarrow> \<not> i < length (transactions s) \<Longrightarrow>
   return_handler valid act i now s = (s, Response 404 ''Transaction not found'' None)"
  by (simp add: return_handler_def findById_def)

lemma return_handler_returned:
  "valid \<Longrightarrow> actorRole act = admin \<Longrightarrow> i < length (transactions s) \<Longrightarrow>
   status (transactions s ! i) = returned \<Longrightarrow>
   return_handler valid act i now s = (s, Response 400 ''Book already returned'' None)"
  by (simp add: return_handler_def findById_def)

lemma returnBook_open:
  "status t \<noteq> returned \<Longrightarrow> validate_tx t = None \<Longrightarrow>
   returnBook now t = Inr (t\<lparr>returnDate := Some now, status := returned\<rparr>)"
  by (simp add: returnBook_def save_tx_def calculateFine_def preSaveOverdue_def
                preSaveDueDate_def validate_tx_def split: if_splits)

text \<open>The return handler never answers 200: whatever the stored counters are, the
  populated book has none, and \<^verbatim>\<open>Book.returnBook\<close> throws.\<close>

lemma return_handler_never_200: "code (snd (return_handler valid act i now s)) \<noteq> 200"
  by (simp add: return_handler_def Let_def book_returnBook_populated
           split: option.splits sum.splits)

text \<open>For an administrator, the return of any loan that is not yet returned is answered
  with 500 and leaves every book as it was; when the transaction passes its validators it
  is nevertheless stored as returned.\<close>

lemma return_handler_open_loan:
  assumes "valid" "actorRole act = admin" "i < length (transactions s)"
    "status (transactions s ! i) \<noteq> returned"
  shows "snd (return_handler valid act i now s) = Response 500 ''Failed to return book'' None"
    and "books (fst (return_handler valid act i now s)) = books s"
    and "validate_tx (transactions s ! i) = None \<Longrightarrow>
         transactions (fst (return_handler valid act i now s)) =
           (transactions s)[i := (transactions s ! i)\<lparr>returnDate := Some now, status := returned\<rparr>]"
proof -
  show "snd (return_handler valid act i now s) = Response 500 ''Failed to return book'' None"
    using assms
    by (simp add: return_handler_def findById_def Let_def book_returnBook_populated
             split: option.splits sum.splits)
  show "books (fst (return_handler valid act i now s)) = books s"
    by (rule return_handler_books)
  show "transactions (fst (return_handler valid act i now s)) =
           (transactions s)[i := (transactions s ! i)\<lparr>returnDate := Some now, status := returned\<rparr>]"
    if "validate_tx (transactions s ! i) = None"
    using assms that returnBook_open[of "transactions s ! i" now]
    by (simp add: return_handler_def findById_def Let_def book_returnBook_populated
             split: option.splits)
qed

text \<open>
  Claim C6, evaluated on the code. The example loan, issued from the example store, holds
  the only copy (0 of 1 available). Its return by an administrator does not succeed: the
  transaction is saved as returned, then \<^verbatim>\<open>Book.returnBook\<close> throws on the populated
  book, the handler answers 500 and the available copies stay at 0.
\<close>

theorem return_open_loan_evaluated:
  "run [(Issue True ex_admin 0 1 None, 1000)] ex_db = ex_issued \<and>
   map status (transactions ex_issued) = [active] \<and>
   map availableCopies (books ex_issued) = [Some 0] \<and>
   map totalCopies (books ex_issued) = [Some 1] \<and>
   return_handler True ex_admin 0 2000 ex_issued =
     (ex_issued\<lparr>transactions := [ex_tx\<lparr>returnDate := Some 2000, status := returned\<rparr>]\<rparr>,
      Response 500 ''Failed to return book'' None) \<and>
   map availableCopies
     (books (fst (return_handler True ex_admin 0 2000 ex_issued))) = [Some 0]"
  by code_simp

section \<open>The sweep on well-formed stores\<close>

lemma perform_lengths:
  "users (perform step s) = users s" "length (books (perform step s)) = length (books s)"
proof -
  obtain opn now where st: "step = (opn, now)" by (cases step)
  show "users (perform step s) = users s"
    unfolding st
    by (cases opn)
       (simp_all add: issue_lengths return_handler_users renew_users checkOverdueBooks_users)
  show "length (books (perform step s)) = length (books s)"
    unfolding st
    by (cases opn)
       (simp_all add: issue_lengths return_handler_books renew_books checkOverdueBooks_books)
qed

lemma validate_tx_None: "validate_tx t = None \<longleftrightarrow> 0 \<le> fineAmount t \<and> renewalCount t \<le> 3"
  by (auto simp: validate_tx_def)

lemma perform_wellformed: "wellformed s \<Longrightarrow> wellformed (perform step s)"
proof -
  assume wf: "wellformed s"
  let ?P = "\<lambda>t. user t < length (users s) \<and> book t < length (books s) \<and>
                 tx_state_ok t \<and> validate_tx t = None"
  have "\<forall>t\<in>set (transactions (perform step s)). ?P t"
  proof (rule perform_preserves)
    show "\<And>now u b d a. u < length (users s) \<Longrightarrow> b < length (books s) \<Longrightarrow>
            ?P (preSaveOverdue now (preSaveDueDate True (newTransaction now u b d a)))"
      by (auto intro!: tx_state_ok_preSaveOverdue)
         (simp_all add: newTransaction_def tx_state_ok_def validate_tx_None)
    show "\<And>now t t'. ?P t \<Longrightarrow> returnBook now t = Inr t' \<Longrightarrow> ?P t'"
      by (auto dest!: returnBook_Inr simp: tx_state_ok_def validate_tx_None)
    show "\<And>now t t'. ?P t \<Longrightarrow> renewBook now t = Inr t' \<Longrightarrow> ?P t'"
      by (auto dest!: renewBook_Inr simp: tx_state_ok_def validate_tx_None)
    show "\<And>now t t'. ?P t \<Longrightarrow> status t = active \<Longrightarrow>
            save_tx False now (calculateFine now t) = Inr t' \<Longrightarrow> ?P t'"
      by (auto dest!: save_tx_Inr simp: calculateFine_not_overdue preSaveDueDate_def
               intro: tx_state_ok_preSaveOverdue)
    show "\<forall>t\<in>set (transactions s). ?P t"
      using wf by (simp add: wellformed_def)
  qed
  then show ?thesis by (simp add: wellformed_def perform_lengths)
qed

lemma run_wellformed: "wellformed s \<Longrightarrow> wellformed (run ops s)"
  by (rule run_invariant[where I = wellformed]) (simp_all add: perform_wellformed)

lemma wellformed_empty: "transactions s = [] \<Longrightarrow> wellformed s"
  by (simp add: wellformed_def)

lemma preSaveOverdue_idem: "preSaveOverdue now (preSaveOverdue now t) = preSaveOverdue now t"
  by (simp add: preSaveOverdue_def)

lemma preSaveOverdue_unselected:
  "\<not> (status t = active \<and> dueDate t < now) \<Longrightarrow> preSaveOverdue now t = t"
  by (auto simp: preSaveOverdue_def)

text \<open>On valid documents with resolvable references the loop saves every selected
  document, so the collection is mapped through the overdue hook.\<close>

lemma sweepLoop_map:
  assumes "\<forall>t\<in>set ts. validate_tx t = None \<and> user t < length (users s) \<and> book t < length (books s)"
    and "length pre = k"
  shows "sweepLoop io s now
           (filter (\<lambda>(i, t). status t = active \<and> dueDate t < now) (enumerate k ts)) (pre @ ts) =
         (pre @ map (preSaveOverdue now) ts,
          if io then map (\<lambda>(i, t). bookOverdue i (preSaveOverdue now t))
                       (filter (\<lambda>(i, t). status t = active \<and> dueDate t < now) (enumerate k ts))
          else [])"
  using assms
proof (induction ts arbitrary: pre k)
  case Nil
  then show ?case by simp
next
  case (Cons t ts)
  from Cons.prems have rest:
    "\<forall>t\<in>set ts. validate_tx t = None \<and> user t < length (users s) \<and> book t < length (books s)"
    by simp
  from Cons.prems have t: "validate_tx t = None" "user t < length (users s)" "book t < length (books s)"
    by simp_all
  show ?case
  proof (cases "status t = active \<and> dueDate t < now")
    case True
    then have cf: "calculateFine now t = t" by (simp add: calculateFine_not_overdue)
    have sv: "save_tx False now t = Inr (preSaveOverdue now t)"
      using t(1) by (simp add: save_tx_def preSaveDueDate_def)
    have upd: "(pre @ t # ts)[k := preSaveOverdue now t] = pre @ preSaveOverdue now t # ts"
      using Cons.prems(2) by (simp add: list_update_append)
    have len: "length (pre @ [preSaveOverdue now t]) = Suc k" using Cons.prems(2) by simp
    from Cons.IH[OF rest len] have IH:
      "sweepLoop io s now
         (filter (\<lambda>(i, t). status t = active \<and> dueDate t < now) (enumerate (Suc k) ts))
         (pre @ preSaveOverdue now t # ts) =
       (pre @ preSaveOverdue now t # map (preSaveOverdue now) ts,
        if io then map (\<lambda>(i, t). bookOverdue i (preSaveOverdue now t))
                     (filter (\<lambda>(i, t). status t = active \<and> dueDate t < now) (enumerate (Suc k) ts))
        else [])"
      by simp
    from True cf sv t IH show ?thesis
      by (cases io) (simp_all add: upd findById_def)
  next
    case False
    have len: "length (pre @ [t]) = Suc k" using Cons.prems(2) by simp
    from Cons.IH[OF rest len] have IH:
      "sweepLoop io s now
         (filter (\<lambda>(i, t). status t = active \<and> dueDate t < now) (enumerate (Suc k) ts))
         (pre @ t # ts) =
       (pre @ t # map (preSaveOverdue now) ts,
        if io then map (\<lambda>(i, t). bookOverdue i (preSaveOverdue now t))
                     (filter (\<lambda>(i, t). status t = active \<and> dueDate t < now) (enumerate (Suc k) ts))
        else [])"
      by simp
    from False have id: "preSaveOverdue now t = t" by (rule preSaveOverdue_unselected)
    show ?thesis by (simp add: False IH id)
  qed
qed

lemma checkOverdueBooks_wellformed:
  assumes "wellformed s"
  shows "checkOverdueBooks io now s =
           (s\<lparr>transactions := map (preSaveOverdue now) (transactions s)\<rparr>,
            if io then map (\<lambda>(i, t). bookOverdue i (preSaveOverdue now t))
                         (findOverdue now (transactions s))
            else [])"
proof -
  have "\<forall>t\<in>set (transactions s).
          validate_tx t = None \<and> user t < length (users s) \<and> book t < length (books s)"
    using assms by (simp add: wellformed_def)
  from sweepLoop_map[OF this, of "[]" 0 io now] show ?thesis
    by (simp add: checkOverdueBooks_def findOverdue_def)
qed

lemma findOverdue_after:
  assumes "\<forall>t\<in>set txs. tx_state_ok t"
  shows "findOverdue now (map (preSaveOverdue now) txs) = []"
proof -
  have "\<not> (status (preSaveOverdue now t) = active \<and> dueDate (preSaveOverdue now t) < now)"
    if "t \<in> set txs" for t
    using assms that by (auto simp: preSaveOverdue_def tx_state_ok_def)
  then show ?thesis
    by (auto simp: findOverdue_def filter_empty_conv in_set_enumerate_eq)
qed

text \<open>
  Claim C9. Running the sweep twice at the same time is the same as running it once: on a
  well-formed store the second run leaves the store of the first run as it is and reports
  no transaction. Every store that issue, return, renew and sweep operations build from an
  empty transaction collection is well-formed.
\<close>

theorem sweep_idempotent:
  "(wellformed s \<longrightarrow>
      checkOverdueBooks io now (fst (checkOverdueBooks io now s)) =
        (fst (checkOverdueBooks io now s), [])) \<and>
   (transactions s0 = [] \<longrightarrow> wellformed (run ops s0))"
proof (intro conjI impI)
  assume wf: "wellformed s"
  let ?s1 = "s\<lparr>transactions := map (preSaveOverdue now) (transactions s)\<rparr>"
  have first: "fst (checkOverdueBooks io now s) = ?s1"
    by (simp add: checkOverdueBooks_wellformed[OF wf])
  have "wellformed (perform (Sweep io, now) s)"
    using wf by (rule perform_wellformed)
  then have wf1: "wellformed ?s1" by (simp add: first)
  have ok: "\<forall>t\<in>set (transactions s). tx_state_ok t"
    using wf by (simp add: wellformed_def)
  have "checkOverdueBooks io now ?s1 = (?s1, [])"
    by (simp add: checkOverdueBooks_wellformed[OF wf1] preSaveOverdue_idem
                  findOverdue_after[OF ok])
  then show "checkOverdueBooks io now (fst (checkOverdueBooks io now s)) =
        (fst (checkOverdueBooks io now s), [])"
    by (simp only: first)
next
  assume "transactions s0 = []"
  then have "wellformed s0" by (rule wellformed_empty)
  then show "wellformed (run ops s0)" by (rule run_wellformed)
qed

theorem sweep_idempotent_witness:
  "wellformed ex_issued \<and>
   checkOverdueBooks True ex_late ex_issued =
     (ex_swept, [bookOverdue 0 (ex_tx\<lparr>status := overdue\<rparr>)]) \<and>
   checkOverdueBooks True ex_late ex_swept = (ex_swept, []) \<and>
   transactions ex_db = [] \<and>
   wellformed (run ex_scenario ex_db)"
proof -
  have wf: "wellformed ex_issued" by code_simp
  have first: "checkOverdueBooks True ex_late ex_issued =
     (ex_swept, [bookOverdue 0 (ex_tx\<lparr>status := overdue\<rparr>)])" by code_simp
  have empty: "transactions ex_db = []" by code_simp
  note inst = sweep_idempotent[of ex_issued True ex_late ex_db ex_scenario]
  from inst wf have "checkOverdueBooks True ex_late (fst (checkOverdueBooks True ex_late ex_issued)) =
        (fst (checkOverdueBooks True ex_late ex_issued), [])" by blast
  with first have second: "checkOverdueBooks True ex_late ex_swept = (ex_swept, [])" by simp
  from inst empty have "wellformed (run ex_scenario ex_db)" by blast
  with wf first second empty show ?thesis by blast
qed

section \<open>What promotes a transaction, and what does not\<close>











end
